theory Spec2Isabelle
  imports Complex_Main
begin

section \<open>The WhisperKit command-line client (whisperkit\_client.py)\<close>

text \<open>
  A shallow embedding of \<^verbatim>\<open>WhisperKitClient\<close>: the text cleaner
  \<^verbatim>\<open>_clean_whisperkit_text\<close>, the streaming consumer
  \<^verbatim>\<open>_transcribe_streaming\<close>, the request builders of
  \<^verbatim>\<open>_transcribe_non_streaming\<close> and \<^verbatim>\<open>translate\<close>, and the dispatcher
  \<^verbatim>\<open>transcribe\<close>.

  A Python \<^verbatim>\<open>str\<close> is a \<^typ>\<open>string\<close>: a list of code points below 256.
\<close>

subsection \<open>Text cleaning: \<^verbatim>\<open>_clean_whisperkit_text\<close>\<close>

text \<open>
  \<^verbatim>\<open>\s\<close> and \<^verbatim>\<open>str.strip()\<close> use the same whitespace test; below 256 it holds of
  the code points 9 to 13, 28 to 32, 133 and 160.
\<close>

definition is_space :: "char \<Rightarrow> bool" where
  "is_space c \<longleftrightarrow>
     (of_char c :: nat) \<in> {9, 10, 11, 12, 13, 28, 29, 30, 31, 32, 133, 160}"

text \<open>
  One match attempt of the pattern \<^verbatim>\<open><\|[^>]+\|>\<close> at the start of a string.
  After \<^verbatim>\<open><|\<close>, the greedy \<^verbatim>\<open>[^>]+\<close> takes every character up to the next
  \<^verbatim>\<open>>\<close> and gives characters back one at a time, down to one, until \<^verbatim>\<open>|>\<close>
  follows. \<open>backtrack k s\<close> tries \<open>k\<close> characters for \<^verbatim>\<open>[^>]+\<close>, then
  \<open>k - 1\<close>, and so on; the result is the text after the match.
\<close>

fun backtrack :: "nat \<Rightarrow> string \<Rightarrow> string option" where
  "backtrack 0 s = None"
| "backtrack (Suc k) s =
     (if take 2 (drop (Suc k) s) = ''|>'' then Some (drop (Suc k + 2) s)
      else backtrack k s)"

definition match_marker :: "string \<Rightarrow> string option" where
  "match_marker s =
     (if take 2 s = ''<|''
      then backtrack (length (takeWhile (\<lambda>c. c \<noteq> CHR ''>'') (drop 2 s))) (drop 2 s)
      else None)"

lemma backtrack_Some:
  "backtrack k s = Some r \<Longrightarrow>
     \<exists>j. 0 < j \<and> j \<le> k \<and> take 2 (drop j s) = ''|>'' \<and> r = drop (j + 2) s"
proof (induction k)
  case 0
  then show ?case by simp
next
  case (Suc k)
  show ?case
  proof (cases "take 2 (drop (Suc k) s) = ''|>''")
    case True
    with Suc.prems have "r = drop (Suc k + 2) s" by simp
    with True show ?thesis by blast
  next
    case False
    with Suc.prems have "backtrack k s = Some r" by simp
    from Suc.IH [OF this] obtain j
      where "0 < j" "j \<le> k" "take 2 (drop j s) = ''|>''" "r = drop (j + 2) s"
      by blast
    then show ?thesis by (intro exI [of _ j]) simp
  qed
qed

lemma match_marker_shorter: "match_marker s = Some r \<Longrightarrow> length r < length s"
proof -
  assume m: "match_marker s = Some r"
  then have p: "take 2 s = ''<|''"
    and b: "backtrack (length (takeWhile (\<lambda>c. c \<noteq> CHR ''>'') (drop 2 s))) (drop 2 s) = Some r"
    by (auto simp: match_marker_def split: if_splits)
  from backtrack_Some [OF b] obtain j where "r = drop (j + 2) (drop 2 s)" by blast
  moreover from p have "2 \<le> length s" by (cases s; cases "tl s") auto
  ultimately show ?thesis by simp
qed

text \<open>
  \<^verbatim>\<open>re.sub(r'<\|[^>]+\|>', '', text)\<close>: scan from the left; where the pattern matches,
  drop the match and go on after it, otherwise keep the character.
\<close>

function sub_markers :: "string \<Rightarrow> string" where
  "sub_markers [] = []"
| "sub_markers (c # cs) =
     (case match_marker (c # cs) of
        Some rest \<Rightarrow> sub_markers rest
      | None \<Rightarrow> c # sub_markers cs)"
  by pat_completeness auto
termination
  by (relation "measure length") (auto dest: match_marker_shorter)

text \<open>\<^verbatim>\<open>re.sub(r'\s+', ' ', cleaned)\<close>: every run of whitespace becomes one blank.\<close>

function collapse_ws :: "string \<Rightarrow> string" where
  "collapse_ws [] = []"
| "collapse_ws (c # cs) =
     (if is_space c then CHR '' '' # collapse_ws (dropWhile is_space cs)
      else c # collapse_ws cs)"
  by pat_completeness auto
termination
  by (relation "measure length") (auto simp: length_dropWhile_le less_Suc_eq_le)

text \<open>\<^verbatim>\<open>str.strip()\<close>: whitespace removed at both ends.\<close>

definition strip :: "string \<Rightarrow> string" where
  "strip s = rev (dropWhile is_space (rev (dropWhile is_space s)))"

definition clean_whisperkit_text :: "string \<Rightarrow> string" where
  "clean_whisperkit_text text =
     (let cleaned = sub_markers text;
          cleaned = sub_markers cleaned;
          cleaned = strip (collapse_ws cleaned)
      in cleaned)"

text \<open>
  \<^verbatim>\<open>re.search(r'<\|[^>]+\|>', s) is not None\<close>: the pattern matches somewhere in the
  string.
\<close>

fun has_marker :: "string \<Rightarrow> bool" where
  "has_marker [] = False"
| "has_marker (c # cs) = (match_marker (c # cs) \<noteq> None \<or> has_marker cs)"

text \<open>
  A string is whitespace-normal when its only whitespace is single blanks: the fixed
  points of \<open>collapse_ws\<close>.
\<close>

fun ws_normal :: "string \<Rightarrow> bool" where
  "ws_normal [] = True"
| "ws_normal [c] = (is_space c \<longrightarrow> c = CHR '' '')"
| "ws_normal (c # d # cs) =
     ((is_space c \<longrightarrow> c = CHR '' '' \<and> \<not> is_space d) \<and> ws_normal (d # cs))"

text \<open>
  Inputs whose markers are not nested: a sequence of characters other than \<^verbatim>\<open><\<close>
  and of complete markers \<^verbatim>\<open><|body|>\<close> with a non-empty body free of \<^verbatim>\<open>>\<close>.
\<close>

datatype piece = Text char | Marker string

fun render :: "piece \<Rightarrow> string" where
  "render (Text c) = [c]"
| "render (Marker body) = ''<|'' @ body @ ''|>''"

fun well_formed :: "piece \<Rightarrow> bool" where
  "well_formed (Text c) = (c \<noteq> CHR ''<'')"
| "well_formed (Marker body) = (body \<noteq> [] \<and> CHR ''>'' \<notin> set body)"

fun plain :: "piece \<Rightarrow> string" where
  "plain (Text c) = [c]"
| "plain (Marker body) = []"

subsection \<open>Python values, errors and messages\<close>

text \<open>
  The values \<^verbatim>\<open>json.loads\<close> and \<^verbatim>\<open>response.json()\<close> produce, which are also the
  values the operations return: \<open>JNull\<close> is \<^verbatim>\<open>None\<close>, \<open>JString\<close> a \<^verbatim>\<open>str\<close>,
  \<open>JInt\<close> an \<^verbatim>\<open>int\<close>, \<open>JFloat\<close> a finite \<^verbatim>\<open>float\<close>, \<open>JArray\<close> a \<^verbatim>\<open>list\<close>
  and \<open>JObject\<close> a \<^verbatim>\<open>dict\<close> given by its items.
\<close>

datatype json =
    JNull
  | JBool bool
  | JInt int
  | JFloat real
  | JString string
  | JArray "json list"
  | JObject "(string \<times> json) list"

text \<open>The exceptions the operations can meet; each is caught inside the operation.\<close>

datatype error =
    OSError
  | RequestException
  | UnicodeDecodeError
  | JSONDecodeError
  | AttributeError
  | TypeError
  | ValueError
  | OverflowError
  | RecursionError

text \<open>
  The printed status and diagnostic messages. The report of a successful non-streamed
  response (language, duration, segments, words) is not recorded, only whether
  formatting it raises.
\<close>

datatype message =
    Starting
  | StreamingFailed int string
  | Receiving
  | Delta string
  | Final json
  | Language json
  | Duration json
  | Granularities "string list"
  | WordLevel
  | SegmentLevel
  | Event json
  | DecodeError string
  | Extracted string
  | FallingBack
  | StreamingException error
  | TranscriptionFailed int string
  | Transcription json
  | NonStreamingException error
  | TranslationFailed int string
  | Translation json
  | TranslationException error

text \<open>Truth value of a Python value (\<^verbatim>\<open>if v:\<close>).\<close>

fun truthy :: "json \<Rightarrow> bool" where
  "truthy JNull = False"
| "truthy (JBool b) = b"
| "truthy (JInt n) = (n \<noteq> 0)"
| "truthy (JFloat x) = (x \<noteq> 0)"
| "truthy (JString s) = (s \<noteq> [])"
| "truthy (JArray xs) = (xs \<noteq> [])"
| "truthy (JObject kvs) = (kvs \<noteq> [])"

text \<open>\<^verbatim>\<open>xs and x in xs\<close> for an optional list argument.\<close>

fun asks :: "string \<Rightarrow> string list option \<Rightarrow> bool" where
  "asks x None = False"
| "asks x (Some xs) = (xs \<noteq> [] \<and> x \<in> set xs)"

text \<open>\<^verbatim>\<open>d.get(k, default)\<close>.\<close>

definition dict_get :: "(string \<times> json) list \<Rightarrow> string \<Rightarrow> json \<Rightarrow> json" where
  "dict_get d k dflt = (case map_of d k of None \<Rightarrow> dflt | Some v \<Rightarrow> v)"

text \<open>
  \<^verbatim>\<open>d[k] = v\<close> on a dict given by its items: an existing key keeps its place and
  gets the new value, a new key goes last.
\<close>

fun dict_set :: "string \<Rightarrow> 'v \<Rightarrow> (string \<times> 'v) list \<Rightarrow> (string \<times> 'v) list" where
  "dict_set k v [] = [(k, v)]"
| "dict_set k v ((k', v') # kvs) =
     (if k' = k then (k, v) # kvs else (k', v') # dict_set k v kvs)"

text \<open>\<^verbatim>\<open>sep.join(xs)\<close>.\<close>

fun join :: "string \<Rightarrow> string list \<Rightarrow> string" where
  "join sep [] = []"
| "join sep [x] = x"
| "join sep (x # y # ys) = x @ sep @ join sep (y # ys)"

text \<open>
  \<^verbatim>\<open>final_text += clean_delta\<close>: concatenation on a \<^verbatim>\<open>str\<close>; a \<^verbatim>\<open>list\<close> is
  extended by the characters; every other value raises \<^verbatim>\<open>TypeError\<close>.
\<close>

fun iadd :: "json \<Rightarrow> string \<Rightarrow> error + json" where
  "iadd (JString a) d = Inr (JString (a @ d))"
| "iadd (JArray xs) d = Inr (JArray (xs @ map (\<lambda>c. JString [c]) d))"
| "iadd v d = Inl TypeError"

subsection \<open>The server, the file system and the JSON parser\<close>

text \<open>
  A request as \<^verbatim>\<open>requests.post\<close> receives it: the URL, the \<^verbatim>\<open>files\<close> dict (field
  name, path and content of the opened file), the \<^verbatim>\<open>data\<close> dict of form fields, the
  headers and the \<^verbatim>\<open>stream\<close> flag.
\<close>

record request =
  url :: string
  files :: "(string \<times> string \<times> string) list"
  data :: "(string \<times> string) list"
  headers :: "(string \<times> string) list"
  stream :: bool

text \<open>
  A line of \<^verbatim>\<open>response.iter_lines()\<close>: its UTF-8 decoding, or \<open>Undecodable\<close> when
  \<^verbatim>\<open>line.decode('utf-8')\<close> raises. The empty line is \<open>Line []\<close>.
\<close>

datatype line = Line string | Undecodable

text \<open>
  A response: \<^verbatim>\<open>status_code\<close>, \<^verbatim>\<open>text\<close>, the value of \<^verbatim>\<open>json()\<close> (\<open>None\<close>
  when it raises) and the lines of \<^verbatim>\<open>iter_lines()\<close>, a finite list: the peer closes
  the connection.
\<close>

record response =
  status_code :: int
  resp_text :: string
  resp_json :: "json option"
  iter_lines :: "line list"

text \<open>
  What the client runs against: \<^verbatim>\<open>self.server_url\<close>, \<^verbatim>\<open>open(path, "rb")\<close> (\<open>None\<close>
  when it raises), \<^verbatim>\<open>requests.post\<close> (\<open>None\<close> when it raises) and \<^verbatim>\<open>json.loads\<close>,
  which returns a value or raises: \<^verbatim>\<open>JSONDecodeError\<close> on text that is not JSON, and
  other exceptions as well, such as \<^verbatim>\<open>ValueError\<close> on an integer beyond the digit
  limit of the interpreter or \<^verbatim>\<open>RecursionError\<close> on deep nesting.
\<close>

record env =
  server_url :: string
  open_file :: "string \<Rightarrow> string option"
  post :: "request \<Rightarrow> response option"
  loads :: "string \<Rightarrow> error + json"

text \<open>What an operation did: the value returned, the requests issued, the messages printed.\<close>

record outcome =
  result :: json
  requests :: "request list"
  printed :: "message list"

subsection \<open>The report of a successful response\<close>

text \<open>
  \<^verbatim>\<open>f"{v:.2f}"\<close> and \<^verbatim>\<open>f"{v:.3f}"\<close>: a \<^verbatim>\<open>bool\<close>, a \<^verbatim>\<open>float\<close> and an \<^verbatim>\<open>int\<close>
  that converts to a float are formatted; a larger \<^verbatim>\<open>int\<close> raises
  \<^verbatim>\<open>OverflowError\<close>, a \<^verbatim>\<open>str\<close> \<^verbatim>\<open>ValueError\<close>, anything else \<^verbatim>\<open>TypeError\<close>.
  The result is the exception raised, if any.
\<close>

fun format_float :: "json \<Rightarrow> error option" where
  "format_float (JBool b) = None"
| "format_float (JInt n) =
     (if \<bar>n\<bar> < 2 ^ 1024 - 2 ^ 970 then None else Some OverflowError)"
| "format_float (JFloat x) = None"
| "format_float (JString s) = Some ValueError"
| "format_float v = Some TypeError"

text \<open>The first exception of a sequence of steps run in order.\<close>

fun first_error :: "error option list \<Rightarrow> error option" where
  "first_error [] = None"
| "first_error (Some e # es) = Some e"
| "first_error (None # es) = first_error es"

text \<open>
  One iteration of the segment loop: \<^verbatim>\<open>segment.get\<close> needs a dict, then the start
  and the end are formatted, and \<^verbatim>\<open>avg_logprob\<close> when the segment has it and the
  caller shows it (transcription does, translation does not).
\<close>

fun show_segment :: "bool \<Rightarrow> json \<Rightarrow> error option" where
  "show_segment conf (JObject d) =
     first_error
       [format_float (dict_get d ''start'' (JInt 0)),
        format_float (dict_get d ''end'' (JInt 0)),
        if conf \<and> map_of d ''avg_logprob'' \<noteq> None
        then format_float (dict_get d ''avg_logprob'' (JInt 0)) else None]"
| "show_segment conf v = Some AttributeError"

text \<open>
  \<^verbatim>\<open>if segments:\<close> followed by \<^verbatim>\<open>len(segments)\<close> and the loop over
  \<^verbatim>\<open>segments[:3]\<close>. A number or \<^verbatim>\<open>True\<close> has no length, a dict cannot be sliced,
  and the elements of a string are strings, which have no \<^verbatim>\<open>get\<close>.
\<close>

fun show_segments :: "bool \<Rightarrow> json \<Rightarrow> error option" where
  "show_segments conf (JArray xs) = first_error (map (show_segment conf) (take 3 xs))"
| "show_segments conf (JString s) = (if s = [] then None else Some AttributeError)"
| "show_segments conf v = (if truthy v then Some TypeError else None)"

text \<open>One iteration of the word loop: \<^verbatim>\<open>word.get\<close> needs a dict, then start and end are formatted.\<close>

fun show_word :: "json \<Rightarrow> error option" where
  "show_word (JObject d) =
     first_error
       [format_float (dict_get d ''start'' (JInt 0)),
        format_float (dict_get d ''end'' (JInt 0))]"
| "show_word v = Some AttributeError"

text \<open>
  \<^verbatim>\<open>if words and len(words) > 0:\<close> with the loop over all words; iterating a dict
  gives its keys, which are strings. The \<^verbatim>\<open>else\<close> branch only prints.
\<close>

fun show_words :: "json \<Rightarrow> error option" where
  "show_words (JArray xs) = first_error (map show_word xs)"
| "show_words (JString s) = (if s = [] then None else Some AttributeError)"
| "show_words (JObject d) = (if d = [] then None else Some AttributeError)"
| "show_words v = (if truthy v then Some TypeError else None)"

text \<open>
  The detailed report of \<^verbatim>\<open>_transcribe_non_streaming\<close> for \<^verbatim>\<open>verbose_json\<close>: the
  segments, then the words when word timestamps were asked for. The result is the
  exception raised, if any.
\<close>

definition report_transcription ::
  "string \<Rightarrow> string list option \<Rightarrow> (string \<times> json) list \<Rightarrow> error option" where
  "report_transcription response_format timestamp_granularities d =
     (if response_format = ''verbose_json''
      then first_error
             [show_segments True (dict_get d ''segments'' (JArray [])),
              if asks ''word'' timestamp_granularities
              then show_words (dict_get d ''words'' (JArray [])) else None]
      else None)"

text \<open>The detailed report of \<^verbatim>\<open>translate\<close>: the segments, without confidence.\<close>

definition report_translation :: "string \<Rightarrow> (string \<times> json) list \<Rightarrow> error option" where
  "report_translation response_format d =
     (if response_format = ''verbose_json''
      then show_segments False (dict_get d ''segments'' (JArray []))
      else None)"

subsection \<open>The requests\<close>

text \<open>
  The form fields both transcription paths share: \<^verbatim>\<open>language\<close> when it is not
  empty, \<^verbatim>\<open>timestamp_granularities[]\<close> as one comma-joined value when given.
\<close>

definition with_language :: "string \<Rightarrow> (string \<times> string) list \<Rightarrow> (string \<times> string) list" where
  "with_language language d = (if language \<noteq> [] then dict_set ''language'' language d else d)"

definition with_granularities ::
  "string list option \<Rightarrow> (string \<times> string) list \<Rightarrow> (string \<times> string) list" where
  "with_granularities timestamp_granularities d =
     (case timestamp_granularities of
        None \<Rightarrow> d
      | Some xs \<Rightarrow> if xs \<noteq> [] then dict_set ''timestamp_granularities[]'' (join '','' xs) d else d)"

text \<open>
  \<^verbatim>\<open>for include_item in include: data["include[]"] = include_item\<close>: every
  iteration assigns the same key of the dict.
\<close>

definition with_include ::
  "string list option \<Rightarrow> (string \<times> string) list \<Rightarrow> (string \<times> string) list" where
  "with_include include d =
     (case include of
        None \<Rightarrow> d
      | Some xs \<Rightarrow> fold (\<lambda>include_item d. dict_set ''include[]'' include_item d) xs d)"

definition streaming_request ::
  "env \<Rightarrow> string \<Rightarrow> string \<Rightarrow> string \<Rightarrow> string \<Rightarrow> string \<Rightarrow> string list option \<Rightarrow> request" where
  "streaming_request e audio_path audio_file language model response_format timestamp_granularities =
     \<lparr>url = server_url e @ ''/v1/audio/transcriptions'',
      files = [(''file'', audio_path, audio_file)],
      data = with_granularities timestamp_granularities
               (with_language language
                  [(''model'', model), (''response_format'', response_format),
                   (''stream'', ''true'')]),
      headers = [(''Accept'', ''text/event-stream'')],
      stream = True\<rparr>"

definition non_streaming_request ::
  "env \<Rightarrow> string \<Rightarrow> string \<Rightarrow> string \<Rightarrow> string \<Rightarrow> string \<Rightarrow> string list option \<Rightarrow>
     string list option \<Rightarrow> request" where
  "non_streaming_request e audio_path audio_file language model response_format
       timestamp_granularities include =
     \<lparr>url = server_url e @ ''/v1/audio/transcriptions'',
      files = [(''file'', audio_path, audio_file)],
      data = with_include include
               (with_granularities timestamp_granularities
                  (with_language language
                     [(''model'', model), (''response_format'', response_format)])),
      headers = [],
      stream = False\<rparr>"

text \<open>The translation request: the granularities argument is not used.\<close>

definition translate_request ::
  "env \<Rightarrow> string \<Rightarrow> string \<Rightarrow> string \<Rightarrow> string \<Rightarrow> string list option \<Rightarrow> request" where
  "translate_request e audio_path audio_file model response_format timestamp_granularities =
     \<lparr>url = server_url e @ ''/v1/audio/translations'',
      files = [(''file'', audio_path, audio_file)],
      data = [(''model'', model), (''response_format'', response_format)],
      headers = [],
      stream = False\<rparr>"

subsection \<open>\<^verbatim>\<open>_transcribe_non_streaming\<close> and \<^verbatim>\<open>translate\<close>\<close>

text \<open>
  Open the file, build the form fields, post, check the status, read the JSON body and
  report it. Every exception is caught by the operation's own handler, which prints it
  and returns \<^verbatim>\<open>None\<close>. The \<^verbatim>\<open>debug\<close> flag only prints the body.
\<close>

definition transcribe_non_streaming ::
  "env \<Rightarrow> string \<Rightarrow> string \<Rightarrow> string \<Rightarrow> string \<Rightarrow> string list option \<Rightarrow> bool \<Rightarrow>
     string list option \<Rightarrow> outcome" where
  "transcribe_non_streaming e audio_path language model response_format
       timestamp_granularities debug include =
     (case open_file e audio_path of
        None \<Rightarrow>
          \<lparr>result = JNull, requests = [], printed = [NonStreamingException OSError]\<rparr>
      | Some audio_file \<Rightarrow>
          let req = non_streaming_request e audio_path audio_file language model
                      response_format timestamp_granularities include
          in (case post e req of
                None \<Rightarrow>
                  \<lparr>result = JNull, requests = [req],
                   printed = [NonStreamingException RequestException]\<rparr>
              | Some response \<Rightarrow>
                  if status_code response \<noteq> 200
                  then \<lparr>result = JNull, requests = [req],
                        printed = [TranscriptionFailed (status_code response)
                                     (resp_text response)]\<rparr>
                  else (case resp_json response of
                          None \<Rightarrow>
                            \<lparr>result = JNull, requests = [req],
                             printed = [NonStreamingException JSONDecodeError]\<rparr>
                        | Some (JObject d) \<Rightarrow>
                            let text = dict_get d ''text'' (JString [])
                            in (case report_transcription response_format
                                       timestamp_granularities d of
                                  Some err \<Rightarrow>
                                    \<lparr>result = JNull, requests = [req],
                                     printed = [Transcription text,
                                                NonStreamingException err]\<rparr>
                                | None \<Rightarrow>
                                    \<lparr>result = text, requests = [req],
                                     printed = [Transcription text]\<rparr>)
                        | Some v \<Rightarrow>
                            \<lparr>result = JNull, requests = [req],
                             printed = [NonStreamingException AttributeError]\<rparr>)))"

definition translate ::
  "env \<Rightarrow> string \<Rightarrow> string \<Rightarrow> string \<Rightarrow> string list option \<Rightarrow> outcome" where
  "translate e audio_path model response_format timestamp_granularities =
     (case open_file e audio_path of
        None \<Rightarrow>
          \<lparr>result = JNull, requests = [], printed = [TranslationException OSError]\<rparr>
      | Some audio_file \<Rightarrow>
          let req = translate_request e audio_path audio_file model response_format
                      timestamp_granularities
          in (case post e req of
                None \<Rightarrow>
                  \<lparr>result = JNull, requests = [req],
                   printed = [TranslationException RequestException]\<rparr>
              | Some response \<Rightarrow>
                  if status_code response \<noteq> 200
                  then \<lparr>result = JNull, requests = [req],
                        printed = [TranslationFailed (status_code response)
                                     (resp_text response)]\<rparr>
                  else (case resp_json response of
                          None \<Rightarrow>
                            \<lparr>result = JNull, requests = [req],
                             printed = [TranslationException JSONDecodeError]\<rparr>
                        | Some (JObject d) \<Rightarrow>
                            let text = dict_get d ''text'' (JString [])
                            in (case report_translation response_format d of
                                  Some err \<Rightarrow>
                                    \<lparr>result = JNull, requests = [req],
                                     printed = [Translation text, TranslationException err]\<rparr>
                                | None \<Rightarrow>
                                    \<lparr>result = text, requests = [req],
                                     printed = [Translation text]\<rparr>)
                        | Some v \<Rightarrow>
                            \<lparr>result = JNull, requests = [req],
                             printed = [TranslationException AttributeError]\<rparr>)))"

subsection \<open>The stream consumer of \<^verbatim>\<open>_transcribe_streaming\<close>\<close>

text \<open>The messages about the requested granularities that follow a done event.\<close>

definition granularity_info :: "string list option \<Rightarrow> message list" where
  "granularity_info timestamp_granularities =
     (case timestamp_granularities of
        None \<Rightarrow> []
      | Some xs \<Rightarrow>
          if xs \<noteq> []
          then [Granularities xs]
               @ (if ''word'' \<in> set xs then [WordLevel] else [])
               @ (if ''segment'' \<in> set xs then [SegmentLevel] else [])
          else [])"

text \<open>
  The body of the \<^verbatim>\<open>try\<close> after \<^verbatim>\<open>json.loads\<close> succeeded, on the state
  \<open>(final_text, printed)\<close>. The result is the new \<open>final_text\<close> or the exception
  raised, with the messages printed so far. \<^verbatim>\<open>event_data.get\<close> needs a dict, and
  \<^verbatim>\<open>re.sub\<close> a string.
\<close>

fun process_event ::
  "string list option \<Rightarrow> json \<Rightarrow> json \<times> message list \<Rightarrow> (error + json) \<times> message list" where
  "process_event timestamp_granularities (JObject d) (final_text, out) =
     (if dict_get d ''type'' JNull = JString ''transcript.text.delta''
      then (let delta = dict_get d ''delta'' (JString [])
            in if truthy delta
               then (case delta of
                       JString s \<Rightarrow>
                         (let clean_delta = clean_whisperkit_text s
                          in (iadd final_text clean_delta, out @ [Delta clean_delta]))
                     | _ \<Rightarrow> (Inl TypeError, out))
               else (Inr final_text, out))
      else if dict_get d ''type'' JNull = JString ''transcript.text.done''
      then (let final_text = dict_get d ''text'' final_text
            in (Inr final_text,
                out @ [Final final_text]
                  @ (if map_of d ''language'' \<noteq> None
                     then [Language (dict_get d ''language'' JNull)] else [])
                  @ (if map_of d ''duration'' \<noteq> None
                     then [Duration (dict_get d ''duration'' JNull)] else [])
                  @ granularity_info timestamp_granularities))
      else (Inr final_text, out @ [Event (JObject d)]))"
| "process_event timestamp_granularities v (final_text, out) = (Inl AttributeError, out)"

text \<open>
  The body of the loop over \<^verbatim>\<open>response.iter_lines()\<close>: empty lines and lines
  without the prefix \<^verbatim>\<open>data: \<close> are skipped. The inner handler catches
  \<^verbatim>\<open>json.JSONDecodeError\<close> only: such a payload replaces \<open>final_text\<close> by its
  stripped text when that is not empty. Any other exception of \<^verbatim>\<open>json.loads\<close> leaves
  the loop.
\<close>

fun process_line ::
  "(string \<Rightarrow> error + json) \<Rightarrow> string list option \<Rightarrow> line \<Rightarrow> json \<times> message list \<Rightarrow>
     (error + json) \<times> message list" where
  "process_line json_loads timestamp_granularities Undecodable (final_text, out) =
     (Inl UnicodeDecodeError, out)"
| "process_line json_loads timestamp_granularities (Line line_str) (final_text, out) =
     (if line_str = [] then (Inr final_text, out)
      else if take 6 line_str = ''data: ''
      then (let data_str = drop 6 line_str
            in case json_loads data_str of
                 Inr event_data \<Rightarrow>
                   process_event timestamp_granularities event_data (final_text, out)
               | Inl err \<Rightarrow>
                   if err = JSONDecodeError
                   then (if strip data_str \<noteq> []
                         then (Inr (JString (strip data_str)),
                               out @ [DecodeError data_str, Extracted (strip data_str)])
                         else (Inr final_text, out @ [DecodeError data_str]))
                   else (Inl err, out))
      else (Inr final_text, out))"

text \<open>The loop: every line in arrival order, until the lines end or a step raises.\<close>

fun consume ::
  "(string \<Rightarrow> error + json) \<Rightarrow> string list option \<Rightarrow> line list \<Rightarrow> json \<times> message list \<Rightarrow>
     (error + json) \<times> message list" where
  "consume json_loads timestamp_granularities [] (final_text, out) = (Inr final_text, out)"
| "consume json_loads timestamp_granularities (l # ls) (final_text, out) =
     (case process_line json_loads timestamp_granularities l (final_text, out) of
        (Inl err, out') \<Rightarrow> (Inl err, out')
      | (Inr final_text', out') \<Rightarrow>
          consume json_loads timestamp_granularities ls (final_text', out'))"

subsection \<open>\<^verbatim>\<open>_transcribe_streaming\<close> and \<^verbatim>\<open>transcribe\<close>\<close>

definition transcribe_streaming ::
  "env \<Rightarrow> string \<Rightarrow> string \<Rightarrow> string \<Rightarrow> string \<Rightarrow> string list option \<Rightarrow> outcome" where
  "transcribe_streaming e audio_path language model response_format timestamp_granularities =
     (case open_file e audio_path of
        None \<Rightarrow>
          \<lparr>result = JNull, requests = [], printed = [StreamingException OSError]\<rparr>
      | Some audio_file \<Rightarrow>
          let req = streaming_request e audio_path audio_file language model
                      response_format timestamp_granularities
          in (case post e req of
                None \<Rightarrow>
                  \<lparr>result = JNull, requests = [req],
                   printed = [Starting, StreamingException RequestException]\<rparr>
              | Some response \<Rightarrow>
                  if status_code response \<noteq> 200
                  then \<lparr>result = JNull, requests = [req],
                        printed = [Starting,
                                   StreamingFailed (status_code response)
                                     (resp_text response)]\<rparr>
                  else (case consume (loads e) timestamp_granularities (iter_lines response)
                               (JString [], [Starting, Receiving]) of
                          (Inl err, out) \<Rightarrow>
                            \<lparr>result = JNull, requests = [req],
                             printed = out @ [StreamingException err]\<rparr>
                        | (Inr final_text, out) \<Rightarrow>
                            if \<not> truthy final_text
                            then (let fallback =
                                        transcribe_non_streaming e audio_path language model
                                          response_format timestamp_granularities False None
                                  in \<lparr>result = result fallback,
                                      requests = req # requests fallback,
                                      printed = out @ [FallingBack] @ printed fallback\<rparr>)
                            else \<lparr>result = final_text, requests = [req],
                                  printed = out\<rparr>)))"

text \<open>
  \<^verbatim>\<open>transcribe\<close>: the streaming path receives neither \<^verbatim>\<open>debug\<close> nor
  \<^verbatim>\<open>include\<close>. Both paths catch every exception themselves, so the handler of
  \<^verbatim>\<open>transcribe\<close> is never entered.
\<close>

definition transcribe ::
  "env \<Rightarrow> string \<Rightarrow> string \<Rightarrow> string \<Rightarrow> bool \<Rightarrow> string \<Rightarrow> string list option \<Rightarrow> bool \<Rightarrow>
     string list option \<Rightarrow> outcome" where
  "transcribe e audio_path language model stream_flag response_format timestamp_granularities
       debug include =
     (if stream_flag
      then transcribe_streaming e audio_path language model response_format
             timestamp_granularities
      else transcribe_non_streaming e audio_path language model response_format
             timestamp_granularities debug include)"

subsection \<open>Lines the consumer does not react to\<close>

text \<open>A line the loop skips: empty, or without the prefix \<^verbatim>\<open>data: \<close>.\<close>

fun skipped :: "line \<Rightarrow> bool" where
  "skipped (Line line_str) = (line_str = [] \<or> take 6 line_str \<noteq> ''data: '')"
| "skipped Undecodable = False"

text \<open>
  A line that carries no delta event, no done event and no raw text, and on which
  nothing raises: it decodes, and it is a skipped line, a blank payload that
  \<^verbatim>\<open>json.loads\<close> rejects with \<^verbatim>\<open>JSONDecodeError\<close>, or a payload that \<^verbatim>\<open>json.loads\<close>
  turns into an object of another type.
\<close>

fun silent :: "(string \<Rightarrow> error + json) \<Rightarrow> line \<Rightarrow> bool" where
  "silent json_loads Undecodable = False"
| "silent json_loads (Line line_str) =
     (line_str = [] \<or> take 6 line_str \<noteq> ''data: '' \<or>
      (case json_loads (drop 6 line_str) of
         Inl err \<Rightarrow> err = JSONDecodeError \<and> strip (drop 6 line_str) = []
       | Inr (JObject d) \<Rightarrow>
           dict_get d ''type'' JNull \<noteq> JString ''transcript.text.delta'' \<and>
           dict_get d ''type'' JNull \<noteq> JString ''transcript.text.done''
       | Inr v \<Rightarrow> False))"

subsection \<open>A sample server\<close>

text \<open>
  Payloads of the streaming scenario and what \<^verbatim>\<open>json.loads\<close> returns on them;
  the other strings used below are not JSON.
\<close>

definition delta_hello :: string where
  \<open>delta_hello = ''{"type":"transcript.text.delta","delta":"<|0.00|> Hello"}''\<close>

definition delta_world :: string where
  \<open>delta_world = ''{"type":"transcript.text.delta","delta":" world"}''\<close>

definition delta_again :: string where
  \<open>delta_again = ''{"type":"transcript.text.delta","delta":" again"}''\<close>

definition done_hello_world :: string where
  \<open>done_hello_world =
     ''{"type":"transcript.text.done","text":"Hello world","language":"en","duration":4.0}''\<close>

definition done_empty :: string where
  \<open>done_empty = ''{"type":"transcript.text.done","text":""}''\<close>

definition other_event :: string where
  \<open>other_event = ''{"type":"transcript.text.segment","id":0}''\<close>

definition huge_id_event :: string where
  \<open>huge_id_event =
     ''{"type":"transcript.text.segment","id":'' @ replicate 4301 CHR ''1'' @ ''}''\<close>

definition sample_loads :: "string \<Rightarrow> error + json" where
  "sample_loads s =
     (if s = delta_hello
      then Inr (JObject [(''type'', JString ''transcript.text.delta''),
                          (''delta'', JString ''<|0.00|> Hello'')])
      else if s = delta_world
      then Inr (JObject [(''type'', JString ''transcript.text.delta''),
                          (''delta'', JString '' world'')])
      else if s = delta_again
      then Inr (JObject [(''type'', JString ''transcript.text.delta''),
                          (''delta'', JString '' again'')])
      else if s = done_hello_world
      then Inr (JObject [(''type'', JString ''transcript.text.done''),
                          (''text'', JString ''Hello world''),
                          (''language'', JString ''en''),
                          (''duration'', JFloat 4)])
      else if s = done_empty
      then Inr (JObject [(''type'', JString ''transcript.text.done''),
                          (''text'', JString [])])
      else if s = other_event
      then Inr (JObject [(''type'', JString ''transcript.text.segment''),
                          (''id'', JInt 0)])
      else Inl JSONDecodeError)"

text \<open>
  The same parser on an interpreter with the limit of 4300 digits for integers: on an
  event whose \<^verbatim>\<open>id\<close> has 4301 digits it raises \<^verbatim>\<open>ValueError\<close>.
\<close>

definition digit_limit_loads :: "string \<Rightarrow> error + json" where
  "digit_limit_loads s = (if s = huge_id_event then Inl ValueError else sample_loads s)"

definition sse :: "string \<Rightarrow> line" where
  "sse payload = Line (''data: '' @ payload)"

definition stream_response :: "line list \<Rightarrow> response" where
  "stream_response ls = \<lparr>status_code = 200, resp_text = [], resp_json = None, iter_lines = ls\<rparr>"

definition json_response :: response where
  "json_response =
     \<lparr>status_code = 200, resp_text = [],
      resp_json = Some (JObject [(''text'', JString ''Hello there'')]), iter_lines = []\<rparr>"

definition error_response :: response where
  "error_response =
     \<lparr>status_code = 500, resp_text = ''Internal Server Error'', resp_json = None,
      iter_lines = []\<rparr>"

definition sample_env :: "response \<Rightarrow> response \<Rightarrow> env" where
  "sample_env streamed unstreamed =
     \<lparr>server_url = ''http://localhost:50060'',
      open_file = (\<lambda>path. if path = ''audio.wav'' then Some ''RIFF'' else None),
      post = (\<lambda>req. if stream req then Some streamed else Some unstreamed),
      loads = sample_loads\<rparr>"


section \<open>Properties of the text cleaner\<close>

subsection \<open>What the pattern matches\<close>

lemma take2_eq: "take 2 xs = [a, b] \<Longrightarrow> xs = a # b # drop 2 xs"
  by (cases xs; cases "tl xs") auto

lemma match_marker_complete:
  assumes "body \<noteq> []" "CHR ''>'' \<notin> set body"
  shows "match_marker (''<|'' @ body @ ''|>'' @ r) = Some r"
proof -
  let ?t = "body @ ''|>'' @ r"
  have tw: "takeWhile (\<lambda>c. c \<noteq> CHR ''>'') ?t = body @ ''|''"
    using assms(2) by (induction body) auto
  obtain m where m: "length body = Suc m" using assms(1) by (cases body) auto
  have "backtrack (Suc (Suc m)) ?t = Some r"
    using m by simp
  then show ?thesis
    using tw m by (simp add: match_marker_def)
qed

lemma match_marker_sound:
  assumes "match_marker s = Some r"
  shows "\<exists>body. s = ''<|'' @ body @ ''|>'' @ r \<and> body \<noteq> [] \<and> CHR ''>'' \<notin> set body"
proof -
  define t where "t = drop 2 s"
  define k where "k = length (takeWhile (\<lambda>c. c \<noteq> CHR ''>'') t)"
  from assms have p: "take 2 s = ''<|''" and b: "backtrack k t = Some r"
    by (auto simp: match_marker_def k_def t_def split: if_splits)
  from backtrack_Some [OF b] obtain j
    where j: "0 < j" "j \<le> k" "take 2 (drop j t) = ''|>''" "r = drop (j + 2) t"
    by blast
  have s: "s = ''<|'' @ t" using take2_eq [OF p] by (simp add: t_def)
  define u where "u = drop j t"
  have "u = CHR ''|'' # CHR ''>'' # drop 2 u" using j(3) unfolding u_def by (rule take2_eq)
  moreover have "drop 2 u = r" using j(4) by (simp add: u_def add.commute)
  ultimately have d: "u = ''|>'' @ r" by simp
  have t: "t = take j t @ ''|>'' @ r"
    using d unfolding u_def by (metis append_take_drop_id)
  have tk: "take j t = take j (takeWhile (\<lambda>c. c \<noteq> CHR ''>'') t)"
  proof -
    have "take j t = take j (takeWhile (\<lambda>c. c \<noteq> CHR ''>'') t @ dropWhile (\<lambda>c. c \<noteq> CHR ''>'') t)"
      by simp
    also have "\<dots> = take j (takeWhile (\<lambda>c. c \<noteq> CHR ''>'') t)"
      using j(2) unfolding k_def by (simp del: takeWhile_dropWhile_id)
    finally show ?thesis .
  qed
  have "set (take j t) \<subseteq> set (takeWhile (\<lambda>c. c \<noteq> CHR ''>'') t)"
    by (subst tk) (rule set_take_subset)
  then have n: "CHR ''>'' \<notin> set (take j t)"
    by (auto dest: set_takeWhileD)
  have "j \<le> length t" using j(2) unfolding k_def
    by (meson le_trans length_takeWhile_le)
  then have ne: "take j t \<noteq> []"
    using j(1) by (cases t) auto
  from s t n ne show ?thesis by metis
qed

lemma match_marker_iff:
  "match_marker s = Some r \<longleftrightarrow>
     (\<exists>body. s = ''<|'' @ body @ ''|>'' @ r \<and> body \<noteq> [] \<and> CHR ''>'' \<notin> set body)"
  using match_marker_sound match_marker_complete by blast

lemma has_marker_iff:
  "has_marker s \<longleftrightarrow>
     (\<exists>pre body rest. s = pre @ ''<|'' @ body @ ''|>'' @ rest \<and> body \<noteq> [] \<and> CHR ''>'' \<notin> set body)"
proof (induction s)
  case Nil
  then show ?case by simp
next
  case (Cons c cs)
  show ?case
  proof
    assume "has_marker (c # cs)"
    then consider r where "match_marker (c # cs) = Some r" | "has_marker cs" by auto
    then show "\<exists>pre body rest. c # cs = pre @ ''<|'' @ body @ ''|>'' @ rest \<and> body \<noteq> [] \<and> CHR ''>'' \<notin> set body"
    proof cases
      case 1
      from match_marker_sound [OF 1] obtain body
        where "c # cs = [] @ ''<|'' @ body @ ''|>'' @ r" "body \<noteq> []" "CHR ''>'' \<notin> set body"
        by auto
      then show ?thesis by blast
    next
      case 2
      with Cons.IH obtain pre body rest
        where "cs = pre @ ''<|'' @ body @ ''|>'' @ rest" "body \<noteq> []" "CHR ''>'' \<notin> set body"
        by blast
      then have "c # cs = (c # pre) @ ''<|'' @ body @ ''|>'' @ rest" by simp
      with \<open>body \<noteq> []\<close> \<open>CHR ''>'' \<notin> set body\<close> show ?thesis by blast
    qed
  next
    assume "\<exists>pre body rest. c # cs = pre @ ''<|'' @ body @ ''|>'' @ rest \<and> body \<noteq> [] \<and> CHR ''>'' \<notin> set body"
    then obtain pre body rest
      where e: "c # cs = pre @ ''<|'' @ body @ ''|>'' @ rest" and b: "body \<noteq> []" "CHR ''>'' \<notin> set body"
      by blast
    show "has_marker (c # cs)"
    proof (cases pre)
      case Nil
      with e have "c # cs = ''<|'' @ body @ ''|>'' @ rest" by simp
      then have "match_marker (c # cs) = Some rest"
        using match_marker_complete [OF b] by simp
      then show ?thesis by simp
    next
      case (Cons p ps)
      with e have "cs = ps @ ''<|'' @ body @ ''|>'' @ rest" by simp
      with b Cons.IH have "has_marker cs" by blast
      then show ?thesis by simp
    qed
  qed
qed

lemma has_marker_embed: "has_marker u \<Longrightarrow> has_marker (a @ u @ b)"
proof -
  assume "has_marker u"
  then obtain pre body rest
    where "u = pre @ ''<|'' @ body @ ''|>'' @ rest" "body \<noteq> []" "CHR ''>'' \<notin> set body"
    unfolding has_marker_iff by blast
  then have "a @ u @ b = (a @ pre) @ ''<|'' @ body @ ''|>'' @ (rest @ b)" by simp
  with \<open>body \<noteq> []\<close> \<open>CHR ''>'' \<notin> set body\<close> show ?thesis
    unfolding has_marker_iff by blast
qed

lemma sub_markers_id: "\<not> has_marker s \<Longrightarrow> sub_markers s = s"
  by (induction s) (auto split: option.splits)


subsection \<open>Whitespace normalisation creates no marker\<close>

lemma not_space_marker_chars [simp]:
  "\<not> is_space CHR ''>''" "\<not> is_space CHR ''|''" "\<not> is_space CHR ''<''" "is_space CHR '' ''"
  by (simp_all add: is_space_def)

lemma collapse_ws_pullback:
  "collapse_ws u = body @ ''|>'' @ rest \<Longrightarrow> CHR ''>'' \<notin> set body \<Longrightarrow>
     \<exists>body' rest'. u = body' @ ''|>'' @ rest' \<and> CHR ''>'' \<notin> set body' \<and> (body \<noteq> [] \<longrightarrow> body' \<noteq> [])"
proof (induction u arbitrary: body rule: collapse_ws.induct)
  case 1
  then show ?case by simp
next
  case (2 c cs)
  show ?case
  proof (cases "is_space c")
    case True
    with "2.prems"(1) have e: "CHR '' '' # collapse_ws (dropWhile is_space cs) = body @ ''|>'' @ rest"
      by simp
    then obtain b1 where b1: "body = CHR '' '' # b1" by (cases body) auto
    with e have "collapse_ws (dropWhile is_space cs) = b1 @ ''|>'' @ rest" by simp
    moreover from b1 "2.prems"(2) have "CHR ''>'' \<notin> set b1" by simp
    ultimately obtain b' r' where d: "dropWhile is_space cs = b' @ ''|>'' @ r'" and n: "CHR ''>'' \<notin> set b'"
      using "2.IH"(1) [OF True] by blast
    have "cs = takeWhile is_space cs @ dropWhile is_space cs" by simp
    with d have "c # cs = (c # takeWhile is_space cs @ b') @ ''|>'' @ r'" by simp
    moreover have "CHR ''>'' \<notin> set (c # takeWhile is_space cs @ b')"
      using n True by (auto dest: set_takeWhileD)
    ultimately show ?thesis by blast
  next
    case False
    with "2.prems"(1) have e: "c # collapse_ws cs = body @ ''|>'' @ rest" by simp
    show ?thesis
    proof (cases body)
      case Nil
      with e have c: "c = CHR ''|''" and k: "collapse_ws cs = CHR ''>'' # rest" by simp_all
      from k obtain cs' where "cs = CHR ''>'' # cs'"
        by (cases cs) (auto split: if_splits)
      with c have "c # cs = [] @ ''|>'' @ cs'" by simp
      with Nil show ?thesis by fastforce
    next
      case (Cons b b1)
      with e have "c = b" and "collapse_ws cs = b1 @ ''|>'' @ rest" by simp_all
      moreover from Cons "2.prems"(2) have "CHR ''>'' \<notin> set b1" "b \<noteq> CHR ''>''" by auto
      ultimately obtain b' r' where "cs = b' @ ''|>'' @ r'" "CHR ''>'' \<notin> set b'"
        using "2.IH"(2) [OF False] by blast
      then have "c # cs = (c # b') @ ''|>'' @ r'" "CHR ''>'' \<notin> set (c # b')"
        using \<open>c = b\<close> \<open>b \<noteq> CHR ''>''\<close> by simp_all
      then show ?thesis by blast
    qed
  qed
qed

lemma match_marker_collapse_ws:
  assumes "match_marker (collapse_ws s) \<noteq> None"
  shows "match_marker s \<noteq> None"
proof -
  from assms obtain r where "match_marker (collapse_ws s) = Some r" by auto
  then obtain body where e: "collapse_ws s = ''<|'' @ body @ ''|>'' @ r"
    and b: "body \<noteq> []" "CHR ''>'' \<notin> set body"
    using match_marker_sound by blast
  from e obtain s1 where s1: "s = CHR ''<'' # s1" and e1: "collapse_ws s1 = CHR ''|'' # body @ ''|>'' @ r"
    by (cases s) (auto split: if_splits)
  from e1 obtain s2 where s2: "s1 = CHR ''|'' # s2" and e2: "collapse_ws s2 = body @ ''|>'' @ r"
    by (cases s1) (auto split: if_splits)
  from collapse_ws_pullback [OF e2 b(2)] b(1) obtain body' rest'
    where "s2 = body' @ ''|>'' @ rest'" "CHR ''>'' \<notin> set body'" "body' \<noteq> []"
    by blast
  with s1 s2 have "s = ''<|'' @ body' @ ''|>'' @ rest'" by simp
  with \<open>body' \<noteq> []\<close> \<open>CHR ''>'' \<notin> set body'\<close> show ?thesis
    using match_marker_complete by fastforce
qed

lemma has_marker_suffix: "has_marker (dropWhile P s) \<Longrightarrow> has_marker s"
  using has_marker_embed [of "dropWhile P s" "takeWhile P s" "[]"] by simp

lemma has_marker_collapse_ws: "has_marker (collapse_ws s) \<Longrightarrow> has_marker s"
proof (induction s rule: collapse_ws.induct)
  case 1
  then show ?case by simp
next
  case (2 c cs)
  show ?case
  proof (cases "is_space c")
    case True
    with "2.prems" have "has_marker (collapse_ws (dropWhile is_space cs))"
      by (simp add: match_marker_def)
    with "2.IH"(1) [OF True] have "has_marker (dropWhile is_space cs)" by simp
    then have "has_marker cs" by (rule has_marker_suffix)
    then show ?thesis by simp
  next
    case False
    with "2.prems" consider "match_marker (collapse_ws (c # cs)) \<noteq> None" | "has_marker (collapse_ws cs)"
      by auto
    then show ?thesis
    proof cases
      case 1
      then have "match_marker (c # cs) \<noteq> None" by (rule match_marker_collapse_ws)
      then show ?thesis by simp
    next
      case 2
      with "2.IH"(2) [OF False] show ?thesis by simp
    qed
  qed
qed

lemma strip_embed: "\<exists>a b. s = a @ strip s @ b"
proof -
  let ?y = "dropWhile is_space s"
  have "rev ?y = takeWhile is_space (rev ?y) @ dropWhile is_space (rev ?y)" by simp
  then have "rev (rev ?y) = rev (takeWhile is_space (rev ?y) @ dropWhile is_space (rev ?y))"
    by (rule arg_cong)
  then have "?y = strip s @ rev (takeWhile is_space (rev ?y))"
    by (simp add: strip_def del: takeWhile_dropWhile_id)
  moreover have "s = takeWhile is_space s @ ?y" by simp
  ultimately show ?thesis by metis
qed

lemma has_marker_strip: "has_marker (strip s) \<Longrightarrow> has_marker s"
proof -
  assume h: "has_marker (strip s)"
  obtain a b where "s = a @ strip s @ b" using strip_embed by blast
  with has_marker_embed [OF h, of a b] show ?thesis by simp
qed


subsection \<open>Whitespace normalisation is idempotent\<close>

lemma collapse_ws_no_leading_space:
  "s = [] \<or> \<not> is_space (hd s) \<Longrightarrow> dropWhile is_space (collapse_ws s) = collapse_ws s"
  by (cases s) auto

lemma dropWhile_head: "dropWhile P s = [] \<or> \<not> P (hd (dropWhile P s))"
  by (metis hd_dropWhile)

lemma ws_normal_collapse_ws: "ws_normal (collapse_ws s)"
proof (induction s rule: collapse_ws.induct)
  case 1
  then show ?case by simp
next
  case (2 c cs)
  show ?case
  proof (cases "is_space c")
    case True
    let ?d = "dropWhile is_space cs"
    have "dropWhile is_space (collapse_ws ?d) = collapse_ws ?d"
      by (rule collapse_ws_no_leading_space) (rule dropWhile_head)
    then have h: "collapse_ws ?d = [] \<or> \<not> is_space (hd (collapse_ws ?d))"
      by (metis dropWhile_head)
    from "2.IH"(1) [OF True] have n: "ws_normal (collapse_ws ?d)" .
    from h n True show ?thesis by (cases "collapse_ws ?d") auto
  next
    case False
    from "2.IH"(2) [OF False] have "ws_normal (collapse_ws cs)" .
    with False show ?thesis by (cases "collapse_ws cs") auto
  qed
qed

lemma collapse_ws_normal: "ws_normal s \<Longrightarrow> collapse_ws s = s"
proof (induction s rule: ws_normal.induct)
  case 1
  then show ?case by simp
next
  case (2 c)
  then show ?case by simp
next
  case (3 c d cs)
  then show ?case by (cases "is_space c") auto
qed

lemma ws_normal_append: "ws_normal (a @ b) \<Longrightarrow> ws_normal a \<and> ws_normal b"
proof (induction a rule: ws_normal.induct)
  case 1
  then show ?case by simp
next
  case (2 c)
  then show ?case by (cases b) auto
next
  case (3 c d cs)
  then show ?case by auto
qed

lemma ws_normal_strip: "ws_normal s \<Longrightarrow> ws_normal (strip s)"
proof -
  assume n: "ws_normal s"
  obtain a b where "s = a @ strip s @ b" using strip_embed by blast
  with n have "ws_normal (a @ strip s @ b)" by simp
  then show ?thesis using ws_normal_append by blast
qed

lemma strip_ends: "strip s = [] \<or> (\<not> is_space (hd (strip s)) \<and> \<not> is_space (last (strip s)))"
proof (cases "strip s = []")
  case True
  then show ?thesis by simp
next
  case False
  let ?y = "dropWhile is_space s"
  let ?z = "dropWhile is_space (rev ?y)"
  have z: "?z \<noteq> []" using False by (simp add: strip_def)
  then have l: "\<not> is_space (hd ?z)" by (metis hd_dropWhile)
  have "last (strip s) = hd ?z" using z by (simp add: strip_def last_rev)
  with l have 1: "\<not> is_space (last (strip s))" by simp
  have y: "?y \<noteq> []"
  proof
    assume e: "?y = []"
    have "?z = []" unfolding e by simp
    with z show False by blast
  qed
  then have hy: "\<not> is_space (hd ?y)" by (metis hd_dropWhile)
  have "rev ?y = takeWhile is_space (rev ?y) @ ?z" by simp
  then have "rev (rev ?y) = rev (takeWhile is_space (rev ?y) @ ?z)" by (rule arg_cong)
  then have "?y = strip s @ rev (takeWhile is_space (rev ?y))"
    by (simp add: strip_def del: takeWhile_dropWhile_id)
  then have "hd ?y = hd (strip s)" using False by (metis hd_append2)
  with hy have 2: "\<not> is_space (hd (strip s))" by simp
  from 1 2 show ?thesis by simp
qed

lemma strip_fixed: "s = [] \<or> (\<not> is_space (hd s) \<and> \<not> is_space (last s)) \<Longrightarrow> strip s = s"
proof (cases s)
  case Nil
  then show ?thesis by (simp add: strip_def)
next
  case (Cons c cs)
  assume "s = [] \<or> (\<not> is_space (hd s) \<and> \<not> is_space (last s))"
  with Cons have h: "\<not> is_space (hd s)" and l: "\<not> is_space (last s)" by auto
  from h Cons have 1: "dropWhile is_space s = s" by simp
  from Cons have "rev s \<noteq> []" by simp
  moreover from l have "\<not> is_space (hd (rev s))" by (simp add: hd_rev)
  ultimately have "dropWhile is_space (rev s) = rev s" by (cases "rev s") auto
  with 1 show ?thesis by (simp add: strip_def)
qed

lemma strip_strip: "strip (strip s) = strip s"
  by (rule strip_fixed) (rule strip_ends)

lemma normalise_idem: "strip (collapse_ws (strip (collapse_ws s))) = strip (collapse_ws s)"
proof -
  have "ws_normal (strip (collapse_ws s))"
    by (rule ws_normal_strip) (rule ws_normal_collapse_ws)
  then have "collapse_ws (strip (collapse_ws s)) = strip (collapse_ws s)"
    by (rule collapse_ws_normal)
  then show ?thesis by (simp add: strip_strip)
qed

lemma no_open_no_marker: "CHR ''<'' \<notin> set s \<Longrightarrow> \<not> has_marker s"
  by (induction s) (auto simp: match_marker_def)

lemma sub_markers_flat:
  "\<forall>p \<in> set ps. well_formed p \<Longrightarrow>
     sub_markers (concat (map render ps)) = concat (map plain ps)"
proof (induction ps)
  case Nil
  then show ?case by simp
next
  case (Cons p ps)
  then have IH: "sub_markers (concat (map render ps)) = concat (map plain ps)" by simp
  show ?case
  proof (cases p)
    case (Text c)
    with Cons.prems have "c \<noteq> CHR ''<''" by simp
    then have "match_marker (c # concat (map render ps)) = None"
      by (simp add: match_marker_def)
    with IH Text show ?thesis by simp
  next
    case (Marker body)
    with Cons.prems have b: "body \<noteq> []" "CHR ''>'' \<notin> set body" by simp_all
    have "match_marker (''<|'' @ body @ ''|>'' @ concat (map render ps)) = Some (concat (map render ps))"
      using b by (rule match_marker_complete)
    with IH Marker show ?thesis by simp
  qed
qed

lemma plain_no_open: "\<forall>p \<in> set ps. well_formed p \<Longrightarrow> CHR ''<'' \<notin> set (concat (map plain ps))"
proof (induction ps)
  case Nil
  then show ?case by simp
next
  case (Cons p ps)
  then show ?case by (cases p) auto
qed

subsection \<open>Markers in the cleaned text\<close>

text \<open>
  Claim C3, as the code has it. The cleaner removes markers in two passes; whitespace
  normalisation never creates one. So the cleaned text has no match of the pattern
  \<^verbatim>\<open><\|[^>]+\|>\<close> whenever the two passes leave none, and in particular for every
  input made of text without \<^verbatim>\<open><\<close> and of complete, non-nested markers.
\<close>

theorem clean_removes_markers:
  "(\<not> has_marker (sub_markers (sub_markers s)) \<longrightarrow> \<not> has_marker (clean_whisperkit_text s)) \<and>
   ((\<forall>p \<in> set ps. well_formed p) \<longrightarrow>
      \<not> has_marker (clean_whisperkit_text (concat (map render ps))))"
proof -
  have 1: "\<not> has_marker (clean_whisperkit_text t)"
    if "\<not> has_marker (sub_markers (sub_markers t))" for t
    using that has_marker_strip has_marker_collapse_ws
    unfolding clean_whisperkit_text_def Let_def by blast
  have 2: "\<not> has_marker (clean_whisperkit_text (concat (map render ps)))"
    if w: "\<forall>p \<in> set ps. well_formed p"
  proof -
    have n: "\<not> has_marker (concat (map plain ps))"
      using plain_no_open [OF w] by (rule no_open_no_marker)
    have "sub_markers (sub_markers (concat (map render ps))) = concat (map plain ps)"
      using sub_markers_flat [OF w] sub_markers_id [OF n] by simp
    with n show ?thesis using 1 by simp
  qed
  from 1 2 show ?thesis by blast
qed

text \<open>
  The theorem at an input with a marker nested two deep, and at a flat input.
\<close>

theorem clean_removes_markers_witness:
  "\<not> has_marker (sub_markers (sub_markers ''<<|en|>|0.00|> Hello <|4.00|>''))
   \<and> \<not> has_marker (clean_whisperkit_text ''<<|en|>|0.00|> Hello <|4.00|>'')
   \<and> well_formed (Marker ''0.00'') \<and> well_formed (Text CHR ''H'') \<and> well_formed (Text CHR ''i'')
   \<and> \<not> has_marker (clean_whisperkit_text (concat (map render [Marker ''0.00'', Text CHR ''H'', Text CHR ''i''])))"
proof -
  have h: "\<not> has_marker (sub_markers (sub_markers ''<<|en|>|0.00|> Hello <|4.00|>''))"
    by (simp add: match_marker_def)
  have w: "\<forall>p \<in> set [Marker ''0.00'', Text CHR ''H'', Text CHR ''i'']. well_formed p"
    by simp
  from clean_removes_markers [of "''<<|en|>|0.00|> Hello <|4.00|>''" "[Marker ''0.00'', Text CHR ''H'', Text CHR ''i'']"] h w
  show ?thesis by simp
qed

text \<open>
  Claim C3 as stated fails: a marker nested three deep leaves a marker in the cleaned
  text. The passes give \<^verbatim>\<open><<|b|>|c|>\<close> and then \<^verbatim>\<open><|c|>\<close>.
\<close>

theorem nested_marker_survives:
  "clean_whisperkit_text ''<<<|a|>|b|>|c|>'' = ''<|c|>'' \<and> has_marker (clean_whisperkit_text ''<<<|a|>|b|>|c|>'')"
  by (simp add: clean_whisperkit_text_def match_marker_def strip_def is_space_def)

subsection \<open>Cleaning twice\<close>

text \<open>
  Claim C4, as the code has it. Cleaning a cleaned text changes nothing when the
  cleaned text contains no marker, and whitespace normalisation (collapse, then strip)
  is idempotent on every string.
\<close>

theorem clean_idempotent_without_marker:
  "(\<not> has_marker (clean_whisperkit_text s) \<longrightarrow>
      clean_whisperkit_text (clean_whisperkit_text s) = clean_whisperkit_text s) \<and>
   strip (collapse_ws (strip (collapse_ws s))) = strip (collapse_ws s)"
proof -
  have "clean_whisperkit_text (clean_whisperkit_text s) = clean_whisperkit_text s"
    if n: "\<not> has_marker (clean_whisperkit_text s)"
  proof -
    from n have "sub_markers (sub_markers (clean_whisperkit_text s)) = clean_whisperkit_text s"
      by (simp add: sub_markers_id)
    then have "clean_whisperkit_text (clean_whisperkit_text s) =
        strip (collapse_ws (clean_whisperkit_text s))"
      by (simp add: clean_whisperkit_text_def [of "clean_whisperkit_text s"])
    also have "\<dots> = clean_whisperkit_text s"
      by (simp add: clean_whisperkit_text_def [of s] normalise_idem)
    finally show ?thesis .
  qed
  then show ?thesis by (simp add: normalise_idem)
qed

text \<open>
  The theorem at the text of a streamed fragment.
\<close>

theorem clean_idempotent_without_marker_witness:
  "\<not> has_marker (clean_whisperkit_text ''<|0.00|>  Hello   world <|4.00|>'')
   \<and> clean_whisperkit_text (clean_whisperkit_text ''<|0.00|>  Hello   world <|4.00|>'') =
       clean_whisperkit_text ''<|0.00|>  Hello   world <|4.00|>''"
proof -
  have c: "clean_whisperkit_text ''<|0.00|>  Hello   world <|4.00|>'' = ''Hello world''"
    by (simp add: clean_whisperkit_text_def match_marker_def strip_def is_space_def)
  have h: "\<not> has_marker (clean_whisperkit_text ''<|0.00|>  Hello   world <|4.00|>'')"
    unfolding c by (simp add: match_marker_def)
  from clean_idempotent_without_marker [of "''<|0.00|>  Hello   world <|4.00|>''"] h
  show ?thesis by blast
qed

text \<open>
  Claim C4 as stated fails: on a marker nested three deep the first cleaning leaves
  \<^verbatim>\<open><|c|>\<close>, which the second cleaning removes.
\<close>

theorem clean_not_idempotent:
  "clean_whisperkit_text ''<<<|a|>|b|>|c|>'' = ''<|c|>''
   \<and> clean_whisperkit_text (clean_whisperkit_text ''<<<|a|>|b|>|c|>'') = []
   \<and> clean_whisperkit_text (clean_whisperkit_text ''<<<|a|>|b|>|c|>'') \<noteq>
       clean_whisperkit_text ''<<<|a|>|b|>|c|>''"
  by (simp add: clean_whisperkit_text_def match_marker_def strip_def is_space_def)

section \<open>Properties of the stream consumer\<close>

subsection \<open>The loop over a split stream\<close>

lemma consume_append:
  "consume jl tg (xs @ ys) (ft, out) =
     (case consume jl tg xs (ft, out) of
        (Inl err, out') \<Rightarrow> (Inl err, out')
      | (Inr ft', out') \<Rightarrow> consume jl tg ys (ft', out'))"
  by (induction xs arbitrary: ft out) (auto split: prod.splits sum.splits)

lemma consume_append_Inr:
  "consume jl tg xs (ft, out) = (Inr ft', out') \<Longrightarrow>
     consume jl tg (xs @ ys) (ft, out) = consume jl tg ys (ft', out')"
  by (simp add: consume_append)

lemma process_line_skipped: "skipped l \<Longrightarrow> process_line jl tg l (ft, out) = (Inr ft, out)"
  by (cases l) auto

lemma consume_skipped:
  "\<forall>l \<in> set ls. skipped l \<Longrightarrow> consume jl tg ls (ft, out) = (Inr ft, out)"
  by (induction ls) (auto simp: process_line_skipped)

lemma process_line_silent:
  "silent jl l \<Longrightarrow> \<exists>out'. process_line jl tg l (ft, out) = (Inr ft, out')"
  by (cases l) (auto simp: Let_def split: sum.splits json.splits)

lemma consume_silent:
  "\<forall>l \<in> set ls. silent jl l \<Longrightarrow> \<exists>out'. consume jl tg ls (ft, out) = (Inr ft, out')"
proof (induction ls arbitrary: out)
  case Nil
  then show ?case by simp
next
  case (Cons l ls)
  then obtain out1 where 1: "process_line jl tg l (ft, out) = (Inr ft, out1)"
    using process_line_silent [of jl l tg ft out] by auto
  from Cons obtain out2 where "consume jl tg ls (ft, out1) = (Inr ft, out2)" by fastforce
  with 1 show ?case by simp
qed

lemma process_line_done:
  assumes "jl payload = Inr (JObject d)"
    and "map_of d ''type'' = Some (JString ''transcript.text.done'')"
    and "map_of d ''text'' = Some v"
  shows "\<exists>out'. process_line jl tg (Line (''data: '' @ payload)) (ft, out) = (Inr v, out')"
  using assms by (simp add: dict_get_def)

lemma consume_step:
  "process_line jl tg l (ft, out) = (Inr ft', out') \<Longrightarrow>
     consume jl tg (l # ls) (ft, out) = consume jl tg ls (ft', out')"
  by simp

lemma clean_empty: "clean_whisperkit_text [] = []"
  by (simp add: clean_whisperkit_text_def strip_def)

lemma process_line_delta:
  assumes "jl payload = Inr (JObject d)"
    and "dict_get d ''type'' JNull = JString ''transcript.text.delta''"
    and "dict_get d ''delta'' (JString []) = JString s"
  shows "\<exists>out'. process_line jl tg (Line (''data: '' @ payload)) (JString acc, out) =
           (Inr (JString (acc @ clean_whisperkit_text s)), out')"
  using assms by (cases "s = []") (simp_all add: Let_def clean_empty)

subsection \<open>The done event\<close>

text \<open>
  Claim C1, as the code has it. When the stream is consumed without an exception, a
  done event carries a non-empty text, and only skipped lines follow it, the operation
  returns exactly that text, whatever the lines before it accumulated.
\<close>

theorem done_text_is_final:
  assumes "open_file e audio_path = Some audio_file"
    and "post e (streaming_request e audio_path audio_file language model response_format tg)
           = Some response"
    and "status_code response = 200"
    and "iter_lines response = before @ [Line (''data: '' @ payload)] @ after"
    and "fst (consume (loads e) tg before (JString [], [Starting, Receiving])) = Inr acc"
    and "loads e payload = Inr (JObject d)"
    and "map_of d ''type'' = Some (JString ''transcript.text.done'')"
    and "map_of d ''text'' = Some (JString t)"
    and "t \<noteq> []"
    and "\<forall>l \<in> set after. skipped l"
  shows "result (transcribe_streaming e audio_path language model response_format tg) = JString t"
proof -
  obtain out1 where 1: "consume (loads e) tg before (JString [], [Starting, Receiving]) = (Inr acc, out1)"
    using assms(5) by (cases "consume (loads e) tg before (JString [], [Starting, Receiving])") auto
  obtain out2 where 2: "process_line (loads e) tg (Line (''data: '' @ payload)) (acc, out1) = (Inr (JString t), out2)"
    using process_line_done [of "loads e" payload d "JString t" tg acc out1] assms(6,7,8) by blast
  have 3: "consume (loads e) tg after (JString t, out2) = (Inr (JString t), out2)"
    using assms(10) by (rule consume_skipped)
  have 4: "consume (loads e) tg ([Line (''data: '' @ payload)] @ after) (acc, out1) = (Inr (JString t), out2)"
    using 2 3 by simp
  have "consume (loads e) tg (iter_lines response) (JString [], [Starting, Receiving]) =
          consume (loads e) tg ([Line (''data: '' @ payload)] @ after) (acc, out1)"
    unfolding assms(4) using 1 by (rule consume_append_Inr)
  with 4 have "consume (loads e) tg (iter_lines response) (JString [], [Starting, Receiving]) = (Inr (JString t), out2)"
    by simp
  then show ?thesis
    using assms(1,2,3,9) by (simp add: transcribe_streaming_def)
qed

text \<open>
  The theorem at the streaming scenario: two deltas, the done event, and the empty
  lines that separate server-sent events.
\<close>

theorem done_text_is_final_witness:
  "result (transcribe_streaming
     (sample_env (stream_response [sse delta_hello, Line [], sse delta_world, Line [],
                                   sse done_hello_world, Line []]) json_response)
     ''audio.wav'' [] ''tiny'' ''json'' None) = JString ''Hello world''"
proof (rule done_text_is_final [where audio_file = "''RIFF''"
      and response = "stream_response [sse delta_hello, Line [], sse delta_world, Line [],
                                   sse done_hello_world, Line []]"
      and before = "[sse delta_hello, Line [], sse delta_world, Line []]"
      and payload = done_hello_world and after = "[Line []]"
      and acc = "JString ''Helloworld''"
      and d = "[(''type'', JString ''transcript.text.done''),
                          (''text'', JString ''Hello world''),
                          (''language'', JString ''en''),
                          (''duration'', JFloat 4)]"])
  show "open_file (sample_env (stream_response [sse delta_hello, Line [], sse delta_world, Line [],
                                   sse done_hello_world, Line []]) json_response) ''audio.wav'' = Some ''RIFF''"
    by (simp add: sample_env_def)
  show "post (sample_env (stream_response [sse delta_hello, Line [], sse delta_world, Line [],
                                   sse done_hello_world, Line []]) json_response)
      (streaming_request (sample_env (stream_response [sse delta_hello, Line [], sse delta_world, Line [],
                                   sse done_hello_world, Line []]) json_response) ''audio.wav'' ''RIFF'' [] ''tiny'' ''json'' None)
      = Some (stream_response [sse delta_hello, Line [], sse delta_world, Line [],
                                   sse done_hello_world, Line []])"
    by (simp add: sample_env_def streaming_request_def)
  show "status_code (stream_response [sse delta_hello, Line [], sse delta_world, Line [],
                                   sse done_hello_world, Line []]) = 200"
    by (simp add: stream_response_def)
  show "iter_lines (stream_response [sse delta_hello, Line [], sse delta_world, Line [],
                                   sse done_hello_world, Line []]) =
     [sse delta_hello, Line [], sse delta_world, Line []] @ [Line (''data: '' @ done_hello_world)] @ [Line []]"
    by (simp add: stream_response_def sse_def)
  show "fst (consume (loads (sample_env (stream_response [sse delta_hello, Line [], sse delta_world, Line [],
                                   sse done_hello_world, Line []]) json_response)) None
       [sse delta_hello, Line [], sse delta_world, Line []] (JString [], [Starting, Receiving])) = Inr (JString ''Helloworld'')"
    by code_simp
  show "loads (sample_env (stream_response [sse delta_hello, Line [], sse delta_world, Line [],
                                   sse done_hello_world, Line []]) json_response) done_hello_world =
     Inr (JObject [(''type'', JString ''transcript.text.done''),
                          (''text'', JString ''Hello world''),
                          (''language'', JString ''en''),
                          (''duration'', JFloat 4)])"
    by code_simp
qed simp_all

text \<open>
  Claim C1 as stated fails: a done event with an empty text leaves \<open>final_text\<close>
  empty, so the operation falls back and returns the text of the non-streamed response.
\<close>

theorem empty_done_text_falls_back:
  "sample_loads done_empty =
     Inr (JObject [(''type'', JString ''transcript.text.done''), (''text'', JString [])])
   \<and> result (transcribe_streaming
       (sample_env (stream_response [sse delta_hello, sse done_empty]) json_response)
       ''audio.wav'' [] ''tiny'' ''json'' None) = JString ''Hello there''
   \<and> JString ''Hello there'' \<noteq> JString []"
  by code_simp

subsection \<open>Events after the done event\<close>

text \<open>
  Claim C2 does not hold of the code: the loop has no exit at the done event, and a
  delta that arrives after it is appended to the final text.
\<close>

theorem event_after_done_changes_text:
  "result (transcribe_streaming
     (sample_env (stream_response [sse done_hello_world, Line [], sse delta_again]) json_response)
     ''audio.wav'' [] ''tiny'' ''json'' None) = JString ''Hello worldagain''"
  by code_simp

subsection \<open>The fallback\<close>

text \<open>
  Claim C5, as the code has it. When the stream is consumed without an exception and
  carries no delta event, no done event and no raw text, that is, every line is silent
  (it decodes, and it is skipped, or its payload is blank and rejected with
  \<^verbatim>\<open>JSONDecodeError\<close>, or \<^verbatim>\<open>json.loads\<close> turns its payload into an object of another
  type), the operation prints the fallback message and issues, after the streaming
  request, exactly one non-streaming request with the same file, whose result it
  returns.
\<close>

theorem fallback_when_silent:
  assumes "open_file e audio_path = Some audio_file"
    and "post e (streaming_request e audio_path audio_file language model response_format tg)
           = Some response"
    and "status_code response = 200"
    and "\<forall>l \<in> set (iter_lines response). silent (loads e) l"
  shows "requests (transcribe_streaming e audio_path language model response_format tg) =
           [streaming_request e audio_path audio_file language model response_format tg,
            non_streaming_request e audio_path audio_file language model response_format tg None]
       \<and> FallingBack \<in> set (printed (transcribe_streaming e audio_path language model response_format tg))
       \<and> result (transcribe_streaming e audio_path language model response_format tg) =
           result (transcribe_non_streaming e audio_path language model response_format tg False None)
       \<and> files (non_streaming_request e audio_path audio_file language model response_format tg None) =
           files (streaming_request e audio_path audio_file language model response_format tg)"
proof -
  obtain out1 where 1: "consume (loads e) tg (iter_lines response) (JString [], [Starting, Receiving]) = (Inr (JString []), out1)"
    using consume_silent [OF assms(4)] by blast
  have 2: "requests (transcribe_non_streaming e audio_path language model response_format tg False None)
         = [non_streaming_request e audio_path audio_file language model response_format tg None]"
    using assms(1) by (simp add: transcribe_non_streaming_def Let_def split: option.splits json.splits)
  show ?thesis
    using assms(1,2,3) 1 2
    by (simp add: transcribe_streaming_def Let_def streaming_request_def non_streaming_request_def)
qed

text \<open>
  The theorem at a stream with one event of another type.
\<close>

theorem fallback_when_silent_witness:
  "silent sample_loads (sse other_event) \<and> silent sample_loads (Line [])
   \<and> requests (transcribe_streaming
        (sample_env (stream_response [sse other_event, Line []]) json_response)
        ''audio.wav'' [] ''tiny'' ''json'' None) =
       [streaming_request (sample_env (stream_response [sse other_event, Line []]) json_response)
          ''audio.wav'' ''RIFF'' [] ''tiny'' ''json'' None,
        non_streaming_request (sample_env (stream_response [sse other_event, Line []]) json_response)
          ''audio.wav'' ''RIFF'' [] ''tiny'' ''json'' None None]
   \<and> result (transcribe_streaming
        (sample_env (stream_response [sse other_event, Line []]) json_response)
        ''audio.wav'' [] ''tiny'' ''json'' None) = JString ''Hello there''"
proof -
  let ?e = "sample_env (stream_response [sse other_event, Line []]) json_response"
  have s: "silent sample_loads (sse other_event) \<and> silent sample_loads (Line [])"
    by code_simp
  have 1: "open_file ?e ''audio.wav'' = Some ''RIFF''"
    by (simp add: sample_env_def)
  have 2: "post ?e (streaming_request ?e ''audio.wav'' ''RIFF'' [] ''tiny'' ''json'' None) =
      Some (stream_response [sse other_event, Line []])"
    by (simp add: sample_env_def streaming_request_def)
  have 3: "status_code (stream_response [sse other_event, Line []]) = 200"
    by (simp add: stream_response_def)
  have 4: "\<forall>l \<in> set (iter_lines (stream_response [sse other_event, Line []])). silent (loads ?e) l"
    using s by (simp add: stream_response_def sample_env_def)
  have 5: "result (transcribe_non_streaming ?e ''audio.wav'' [] ''tiny'' ''json'' None False None) =
      JString ''Hello there''"
    by code_simp
  from fallback_when_silent [OF 1 2 3 4] s 5 show ?thesis by simp
qed

text \<open>
  Claim C5 as stated fails: a stream with no delta and no done event whose only payload
  is raw text returns that text; no fallback is signalled and no second request issued.
\<close>

theorem raw_text_stream_has_no_fallback:
  "sample_loads ''hello'' = Inl JSONDecodeError
   \<and> transcribe_streaming (sample_env (stream_response [sse ''hello'']) json_response)
       ''audio.wav'' [] ''tiny'' ''json'' None =
     \<lparr>result = JString ''hello'',
      requests = [streaming_request (sample_env (stream_response [sse ''hello'']) json_response)
                    ''audio.wav'' ''RIFF'' [] ''tiny'' ''json'' None],
      printed = [Starting, Receiving, DecodeError ''hello'', Extracted ''hello'']\<rparr>"
  by code_simp

subsection \<open>Payloads that are not JSON, and events of other types\<close>

text \<open>
  Claim C6, as the code has it. A payload that \<^verbatim>\<open>json.loads\<close> rejects with
  \<^verbatim>\<open>JSONDecodeError\<close> does not stop the loop: its stripped text replaces the accumulated
  text when it is not empty, and a blank payload leaves the text unchanged. A payload
  that \<^verbatim>\<open>json.loads\<close> turns into an object of another type is printed and leaves the
  text unchanged.
\<close>

theorem raw_text_and_other_events:
  "(json_loads payload = Inl JSONDecodeError \<longrightarrow>
      consume json_loads tg (Line (''data: '' @ payload) # rest) (final_text, out) =
        consume json_loads tg rest
          (if strip payload \<noteq> [] then JString (strip payload) else final_text,
           out @ DecodeError payload #
             (if strip payload \<noteq> [] then [Extracted (strip payload)] else []))) \<and>
   (json_loads payload = Inr (JObject d) \<and>
    dict_get d ''type'' JNull \<noteq> JString ''transcript.text.delta'' \<and>
    dict_get d ''type'' JNull \<noteq> JString ''transcript.text.done'' \<longrightarrow>
      consume json_loads tg (Line (''data: '' @ payload) # rest) (final_text, out) =
        consume json_loads tg rest (final_text, out @ [Event (JObject d)]))"
  by simp

text \<open>
  The theorem at a raw payload and at an event of another type, each followed by a delta.
\<close>

theorem raw_text_and_other_events_witness:
  "sample_loads ''  hi '' = Inl JSONDecodeError
   \<and> consume sample_loads None [sse ''  hi '', sse delta_world] (JString ''Hello'', []) =
       (Inr (JString ''hiworld''), [DecodeError ''  hi '', Extracted ''hi'', Delta ''world''])
   \<and> consume sample_loads None [sse other_event, sse delta_world] (JString ''Hello'', []) =
       (Inr (JString ''Helloworld''),
        [Event (JObject [(''type'', JString ''transcript.text.segment''), (''id'', JInt 0)]),
         Delta ''world''])"
proof -
  have 1: "sample_loads ''  hi '' = Inl JSONDecodeError" by code_simp
  have 2: "sample_loads other_event =
      Inr (JObject [(''type'', JString ''transcript.text.segment''), (''id'', JInt 0)])"
    by code_simp
  have 3: "dict_get [(''type'', JString ''transcript.text.segment''), (''id'', JInt 0)] ''type'' JNull
             \<noteq> JString ''transcript.text.delta''
         \<and> dict_get [(''type'', JString ''transcript.text.segment''), (''id'', JInt 0)] ''type'' JNull
             \<noteq> JString ''transcript.text.done''"
    by (simp add: dict_get_def)
  have 4: "strip ''  hi '' = ''hi''" by code_simp
  have 5: "consume sample_loads None [sse delta_world] (JString ''hi'', [DecodeError ''  hi '', Extracted ''hi'']) =
      (Inr (JString ''hiworld''), [DecodeError ''  hi '', Extracted ''hi'', Delta ''world''])"
    by code_simp
  have 6: "consume sample_loads None [sse delta_world] (JString ''Hello'',
       [Event (JObject [(''type'', JString ''transcript.text.segment''), (''id'', JInt 0)])]) =
      (Inr (JString ''Helloworld''),
        [Event (JObject [(''type'', JString ''transcript.text.segment''), (''id'', JInt 0)]),
         Delta ''world''])"
    by code_simp
  from raw_text_and_other_events [of sample_loads "''  hi ''" None "[sse delta_world]" "JString ''Hello''" "[]"
      "[(''type'', JString ''transcript.text.segment''), (''id'', JInt 0)]"]
    raw_text_and_other_events [of sample_loads other_event None "[sse delta_world]" "JString ''Hello''" "[]"
      "[(''type'', JString ''transcript.text.segment''), (''id'', JInt 0)]"]
    1 2 3 4 5 6
  show ?thesis by (simp add: sse_def)
qed

text \<open>
  Claim C6 as stated fails: the raw payload is not used verbatim; whitespace around it
  is stripped.
\<close>

theorem raw_text_is_stripped:
  "sample_loads ''  hi '' = Inl JSONDecodeError
   \<and> fst (process_line sample_loads None (Line (''data: '' @ ''  hi '')) (JString ''Hello'', [])) =
       Inr (JString ''hi'')
   \<and> JString ''hi'' \<noteq> JString ''  hi ''"
  by code_simp

text \<open>
  The inner handler catches \<^verbatim>\<open>JSONDecodeError\<close> only. Any other exception of
  \<^verbatim>\<open>json.loads\<close> leaves the loop with the messages printed so far.
\<close>

lemma other_exception_leaves_the_loop:
  "json_loads payload = Inl err \<Longrightarrow> err \<noteq> JSONDecodeError \<Longrightarrow>
     consume json_loads tg (Line (''data: '' @ payload) # rest) (final_text, out) = (Inl err, out)"
  by simp

text \<open>
  With the digit limit, an event whose \<^verbatim>\<open>id\<close> has 4301 digits ends the operation in
  its outer handler: it returns \<^verbatim>\<open>None\<close> after the one streaming request, without a
  fallback.
\<close>

lemma huge_integer_event_aborts:
  "transcribe_streaming
       ((sample_env (stream_response [sse huge_id_event]) json_response)
          \<lparr>loads := digit_limit_loads\<rparr>)
       ''audio.wav'' [] ''tiny'' ''json'' None =
     \<lparr>result = JNull,
      requests = [streaming_request
                    ((sample_env (stream_response [sse huge_id_event]) json_response)
                       \<lparr>loads := digit_limit_loads\<rparr>)
                    ''audio.wav'' ''RIFF'' [] ''tiny'' ''json'' None],
      printed = [Starting, Receiving, StreamingException ValueError]\<rparr>"
proof -
  have l: "digit_limit_loads huge_id_event = Inl ValueError"
    by (simp add: digit_limit_loads_def)
  have "consume digit_limit_loads None [sse huge_id_event] (JString [], [Starting, Receiving]) =
      (Inl ValueError, [Starting, Receiving])"
    unfolding sse_def using l by (rule other_exception_leaves_the_loop) simp
  then show ?thesis
    by (simp add: transcribe_streaming_def sample_env_def stream_response_def
        streaming_request_def Let_def)
qed

subsection \<open>Consecutive deltas\<close>

text \<open>
  Claim C10. A delta event appends the cleaned delta to the accumulated string (a
  missing or empty delta appends nothing, which is its cleaned form); the cleaned delta
  neither starts nor ends with whitespace; so two consecutive deltas are joined without
  a separator.
\<close>

theorem deltas_join_without_separator:
  assumes "json_loads p1 = Inr (JObject d1)"
    and "dict_get d1 ''type'' JNull = JString ''transcript.text.delta''"
    and "dict_get d1 ''delta'' (JString []) = JString s1"
    and "json_loads p2 = Inr (JObject d2)"
    and "dict_get d2 ''type'' JNull = JString ''transcript.text.delta''"
    and "dict_get d2 ''delta'' (JString []) = JString s2"
  shows "fst (consume json_loads tg [Line (''data: '' @ p1), Line (''data: '' @ p2)]
                (JString acc, out)) =
           Inr (JString (acc @ clean_whisperkit_text s1 @ clean_whisperkit_text s2))
       \<and> (clean_whisperkit_text s1 = [] \<or>
            \<not> is_space (hd (clean_whisperkit_text s1)) \<and>
            \<not> is_space (last (clean_whisperkit_text s1)))
       \<and> (clean_whisperkit_text s2 = [] \<or>
            \<not> is_space (hd (clean_whisperkit_text s2)) \<and>
            \<not> is_space (last (clean_whisperkit_text s2)))"
proof -
  have e: "clean_whisperkit_text s = [] \<or>
      \<not> is_space (hd (clean_whisperkit_text s)) \<and> \<not> is_space (last (clean_whisperkit_text s))" for s
    unfolding clean_whisperkit_text_def Let_def by (rule strip_ends)
  obtain out1 where 1: "process_line json_loads tg (Line (''data: '' @ p1)) (JString acc, out) =
      (Inr (JString (acc @ clean_whisperkit_text s1)), out1)"
    using process_line_delta [of json_loads p1 d1 s1 tg acc out] assms(1-3) by blast
  obtain out2 where 2: "process_line json_loads tg (Line (''data: '' @ p2))
        (JString (acc @ clean_whisperkit_text s1), out1) =
      (Inr (JString ((acc @ clean_whisperkit_text s1) @ clean_whisperkit_text s2)), out2)"
    using process_line_delta [of json_loads p2 d2 s2 tg "acc @ clean_whisperkit_text s1" out1]
      assms(4-6) by blast
  have "consume json_loads tg [Line (''data: '' @ p1), Line (''data: '' @ p2)] (JString acc, out) =
      consume json_loads tg [Line (''data: '' @ p2)]
        (JString (acc @ clean_whisperkit_text s1), out1)"
    using 1 by (rule consume_step)
  also have "\<dots> = consume json_loads tg []
        (JString ((acc @ clean_whisperkit_text s1) @ clean_whisperkit_text s2), out2)"
    using 2 by (rule consume_step)
  also have "\<dots> = (Inr (JString (acc @ clean_whisperkit_text s1 @ clean_whisperkit_text s2)), out2)"
    by simp
  finally have c: "fst (consume json_loads tg [Line (''data: '' @ p1), Line (''data: '' @ p2)]
      (JString acc, out)) = Inr (JString (acc @ clean_whisperkit_text s1 @ clean_whisperkit_text s2))"
    by simp
  from c e [of s1] e [of s2] show ?thesis by blast
qed

text \<open>
  The theorem at the deltas \<^verbatim>\<open><|0.00|> Hello\<close> and \<^verbatim>\<open> world\<close>, which accumulate as
  \<^verbatim>\<open>Helloworld\<close>.
\<close>

theorem deltas_join_without_separator_witness:
  "fst (consume sample_loads None [sse delta_hello, sse delta_world] (JString [], [])) =
     Inr (JString ''Helloworld'')"
proof -
  have 1: "sample_loads delta_hello =
      Inr (JObject [(''type'', JString ''transcript.text.delta''),
                     (''delta'', JString ''<|0.00|> Hello'')])"
    by code_simp
  have 2: "sample_loads delta_world =
      Inr (JObject [(''type'', JString ''transcript.text.delta''),
                     (''delta'', JString '' world'')])"
    by code_simp
  have 3: "clean_whisperkit_text ''<|0.00|> Hello'' = ''Hello''"
    "clean_whisperkit_text '' world'' = ''world''"
    by code_simp+
  from deltas_join_without_separator [OF 1 _ _ 2, of "''<|0.00|> Hello''" "'' world''" None "[]" "[]"] 3
  show ?thesis by (simp add: sse_def dict_get_def)
qed

section \<open>Properties of the requests\<close>

subsection \<open>A status other than 200\<close>

text \<open>
  Claim C7. When the server answers with a status other than 200, each of the three
  operations returns \<^verbatim>\<open>None\<close>, having issued its one request and printed a failure
  message with the status code and the response body.
\<close>

theorem non_success_status_returns_none:
  assumes "open_file e audio_path = Some audio_file"
    and "status_code response \<noteq> 200"
  shows
    "(post e (non_streaming_request e audio_path audio_file language model response_format tg include)
        = Some response \<longrightarrow>
      transcribe_non_streaming e audio_path language model response_format tg debug include =
        \<lparr>result = JNull,
         requests = [non_streaming_request e audio_path audio_file language model
                       response_format tg include],
         printed = [TranscriptionFailed (status_code response) (resp_text response)]\<rparr>) \<and>
     (post e (streaming_request e audio_path audio_file language model response_format tg)
        = Some response \<longrightarrow>
      transcribe_streaming e audio_path language model response_format tg =
        \<lparr>result = JNull,
         requests = [streaming_request e audio_path audio_file language model response_format tg],
         printed = [Starting, StreamingFailed (status_code response) (resp_text response)]\<rparr>) \<and>
     (post e (translate_request e audio_path audio_file model response_format tg)
        = Some response \<longrightarrow>
      translate e audio_path model response_format tg =
        \<lparr>result = JNull,
         requests = [translate_request e audio_path audio_file model response_format tg],
         printed = [TranslationFailed (status_code response) (resp_text response)]\<rparr>)"
  using assms
  by (simp add: transcribe_non_streaming_def transcribe_streaming_def translate_def Let_def)

text \<open>
  The theorem at a server that answers 500 to every request.
\<close>

theorem non_success_status_returns_none_witness:
  "status_code error_response \<noteq> 200
   \<and> transcribe_non_streaming (sample_env error_response error_response)
        ''audio.wav'' ''en'' ''tiny'' ''verbose_json'' (Some [''word'']) False (Some [''logprobs'']) =
       \<lparr>result = JNull,
        requests = [non_streaming_request (sample_env error_response error_response)
                      ''audio.wav'' ''RIFF'' ''en'' ''tiny'' ''verbose_json'' (Some [''word''])
                      (Some [''logprobs''])],
        printed = [TranscriptionFailed 500 ''Internal Server Error'']\<rparr>
   \<and> transcribe_streaming (sample_env error_response error_response)
        ''audio.wav'' ''en'' ''tiny'' ''verbose_json'' (Some [''word'']) =
       \<lparr>result = JNull,
        requests = [streaming_request (sample_env error_response error_response)
                      ''audio.wav'' ''RIFF'' ''en'' ''tiny'' ''verbose_json'' (Some [''word''])],
        printed = [Starting, StreamingFailed 500 ''Internal Server Error'']\<rparr>
   \<and> translate (sample_env error_response error_response)
        ''audio.wav'' ''tiny'' ''verbose_json'' (Some [''word'']) =
       \<lparr>result = JNull,
        requests = [translate_request (sample_env error_response error_response)
                      ''audio.wav'' ''RIFF'' ''tiny'' ''verbose_json'' (Some [''word''])],
        printed = [TranslationFailed 500 ''Internal Server Error'']\<rparr>"
proof -
  let ?e = "sample_env error_response error_response"
  have 1: "open_file ?e ''audio.wav'' = Some ''RIFF''" by (simp add: sample_env_def)
  have 2: "status_code error_response \<noteq> 200" by (simp add: error_response_def)
  have 3: "post ?e req = Some error_response" for req by (simp add: sample_env_def)
  have 4: "status_code error_response = 500" "resp_text error_response = ''Internal Server Error''"
    by (simp_all add: error_response_def)
  from non_success_status_returns_none [OF 1 2, of "''en''" "''tiny''" "''verbose_json''"
      "Some [''word'']" "Some [''logprobs'']" False] 2 3 4
  show ?thesis by simp
qed

subsection \<open>Translation and timestamp granularities\<close>

text \<open>
  Claim C8. Every request that \<^verbatim>\<open>translate\<close> issues has exactly the form fields
  \<^verbatim>\<open>model\<close> and \<^verbatim>\<open>response_format\<close>, whatever granularities the caller supplies.
\<close>

theorem translate_omits_granularities:
  "\<forall>req \<in> set (requests (translate e audio_path model response_format timestamp_granularities)).
     map_of (data req) ''timestamp_granularities[]'' = None \<and>
     data req = [(''model'', model), (''response_format'', response_format)]"
  by (auto simp: translate_def translate_request_def Let_def split: option.splits json.splits)

text \<open>
  The theorem at a translation called with word and segment granularities.
\<close>

theorem translate_omits_granularities_witness:
  "requests (translate (sample_env error_response json_response) ''audio.wav'' ''tiny''
       ''verbose_json'' (Some [''word'', ''segment''])) =
     [translate_request (sample_env error_response json_response) ''audio.wav'' ''RIFF'' ''tiny''
        ''verbose_json'' (Some [''word'', ''segment''])]
   \<and> map_of (data (translate_request (sample_env error_response json_response) ''audio.wav''
        ''RIFF'' ''tiny'' ''verbose_json'' (Some [''word'', ''segment''])))
        ''timestamp_granularities[]'' = None"
proof -
  let ?e = "sample_env error_response json_response"
  have 1: "requests (translate ?e ''audio.wav'' ''tiny'' ''verbose_json'' (Some [''word'', ''segment''])) =
     [translate_request ?e ''audio.wav'' ''RIFF'' ''tiny'' ''verbose_json'' (Some [''word'', ''segment''])]"
    by (simp add: translate_def sample_env_def json_response_def translate_request_def
        report_translation_def dict_get_def Let_def)
  from translate_omits_granularities [of ?e "''audio.wav''" "''tiny''" "''verbose_json''"
      "Some [''word'', ''segment'']"] 1
  show ?thesis by simp
qed

subsection \<open>Inclusion flags\<close>

text \<open>
  The loop over the inclusion flags assigns one key: the last flag wins.
\<close>

lemma fold_dict_set_last:
  "xs \<noteq> [] \<Longrightarrow> map_of (fold (\<lambda>x d. dict_set k x d) xs d) k = Some (last xs)"
proof (induction xs arbitrary: d)
  case Nil
  then show ?case by simp
next
  case (Cons x xs)
  have s: "map_of (dict_set k v d') k = Some v" for v and d' :: "(string \<times> 'a) list"
    by (induction d') auto
  show ?case
  proof (cases xs)
    case Nil
    then show ?thesis by (simp add: s)
  next
    case (Cons y ys)
    with Cons.IH show ?thesis by simp
  qed
qed

text \<open>
  Claim C9 does not hold of the code: with the flags \<^verbatim>\<open>logprobs\<close> and
  \<^verbatim>\<open>segments\<close> the request carries a single \<^verbatim>\<open>include[]\<close> field, the last flag.
\<close>

theorem include_keeps_last_flag_only:
  "data (non_streaming_request e ''audio.wav'' ''RIFF'' [] ''tiny'' ''json'' None
           (Some [''logprobs'', ''segments''])) =
     [(''model'', ''tiny''), (''response_format'', ''json''), (''include[]'', ''segments'')]
   \<and> (''include[]'', ''logprobs'') \<notin> set (data (non_streaming_request e ''audio.wav'' ''RIFF'' []
           ''tiny'' ''json'' None (Some [''logprobs'', ''segments''])))"
  by (simp add: non_streaming_request_def with_include_def with_granularities_def
      with_language_def)

end
